theory Spec2Isabelle
  imports Main "HOL-Library.Sublist" "HOL-Library.AList"
begin

section \<open>Python strings\<close>

text \<open>
  A Python \<open>str\<close> is modelled as a \<open>string\<close>: a list of characters with code points below
  256. The methods of \<open>str\<close> that the crawler and \<open>urllib.parse\<close> call are written out
  below with Python's results on the empty string and on a missing separator.
\<close>

datatype error = ValueError | KeyError | TypeError

definition lstrip :: "string \<Rightarrow> string \<Rightarrow> string" where
  "lstrip chars s = dropWhile (\<lambda>c. c \<in> set chars) s"

definition rstrip :: "string \<Rightarrow> string \<Rightarrow> string" where
  "rstrip chars s = rev (dropWhile (\<lambda>c. c \<in> set chars) (rev s))"

definition strip :: "string \<Rightarrow> string \<Rightarrow> string" where
  "strip chars s = rstrip chars (lstrip chars s)"

text \<open>\<open>s.replace(old, new)\<close>: every occurrence, found from the left, without overlap.\<close>

function replace :: "string \<Rightarrow> string \<Rightarrow> string \<Rightarrow> string" where
  "replace old new s =
     (if old = [] then new @ concat (map (\<lambda>c. c # new) s)
      else if s = [] then []
      else if prefix old s then new @ replace old new (drop (length old) s)
      else hd s # replace old new (tl s))"
  by pat_completeness auto
termination
  by (relation "measure (\<lambda>(old, new, s). length s)") auto

declare replace.simps [simp del]

text \<open>\<open>s.split(sep)\<close> for a separator of one character; the result is never empty.\<close>

fun split :: "char \<Rightarrow> string \<Rightarrow> string list" where
  "split sep [] = [[]]"
| "split sep (c # cs) =
     (if c = sep then [] # split sep cs
      else (case split sep cs of [] \<Rightarrow> [[c]] | p # ps \<Rightarrow> (c # p) # ps))"

text \<open>\<open>s.partition(sep)\<close>, without the separator itself: the text before the first
  \<open>sep\<close> and the text after it (both of \<open>s.split(sep, 1)\<close> when \<open>sep\<close> occurs).\<close>

definition before :: "char \<Rightarrow> string \<Rightarrow> string" where
  "before sep s = takeWhile (\<lambda>c. c \<noteq> sep) s"

definition after :: "char \<Rightarrow> string \<Rightarrow> string" where
  "after sep s = drop 1 (dropWhile (\<lambda>c. c \<noteq> sep) s)"

text \<open>\<open>sep.join(xs)\<close>.\<close>

fun join :: "string \<Rightarrow> string list \<Rightarrow> string" where
  "join sep [] = []"
| "join sep [x] = x"
| "join sep (x # y # ys) = x @ sep @ join sep (y # ys)"

text \<open>\<open>s.find(c)\<close> and \<open>s.rfind(c)\<close> for one character; \<open>None\<close> is Python's \<open>-1\<close>.\<close>

definition find_char :: "char \<Rightarrow> string \<Rightarrow> nat option" where
  "find_char c s = (if c \<in> set s then Some (length (takeWhile (\<lambda>x. x \<noteq> c) s)) else None)"

definition rfind_char :: "char \<Rightarrow> string \<Rightarrow> nat option" where
  "rfind_char c s =
     (if c \<in> set s then Some (length s - 1 - length (takeWhile (\<lambda>x. x \<noteq> c) (rev s)))
      else None)"

definition ascii_uppercase :: string where
  "ascii_uppercase = ''ABCDEFGHIJKLMNOPQRSTUVWXYZ''"

definition ascii_lowercase :: string where
  "ascii_lowercase = ''abcdefghijklmnopqrstuvwxyz''"

text \<open>\<open>s.lower()\<close>, on the characters a scheme can hold (only ASCII letters change).\<close>

definition lower :: "string \<Rightarrow> string" where
  "lower s =
     map (\<lambda>c. case map_of (zip ascii_uppercase ascii_lowercase) c of
                 None \<Rightarrow> c | Some l \<Rightarrow> l) s"

section \<open>\<open>urllib.parse\<close>\<close>

text \<open>
  The standard library's \<open>urlsplit\<close>, \<open>urlparse\<close>, \<open>urlunsplit\<close>, \<open>urlunparse\<close> and
  \<open>urljoin\<close> (CPython 3.11), on \<open>str\<close> arguments with \<open>allow_fragments\<close> left at its default.
  \<open>ValueError\<close> is the only exception they raise. The validation of a bracketed host
  (\<open>_check_bracketed_host\<close>, which calls \<open>ipaddress.ip_address\<close>) is a parameter \<open>V\<close>: it
  answers whether the text between the brackets is accepted. \<open>_checknetloc\<close> never raises
  on code points below 256 and so has no counterpart here.
\<close>

type_synonym host_check = "string \<Rightarrow> bool"

definition uses_relative :: "string list" where
  "uses_relative = ['''', ''ftp'', ''http'', ''gopher'', ''nntp'', ''imap'',
     ''wais'', ''file'', ''https'', ''shttp'', ''mms'',
     ''prospero'', ''rtsp'', ''rtsps'', ''rtspu'', ''sftp'',
     ''svn'', ''svn+ssh'', ''ws'', ''wss'']"

definition uses_netloc :: "string list" where
  "uses_netloc = ['''', ''ftp'', ''http'', ''gopher'', ''nntp'', ''telnet'',
     ''imap'', ''wais'', ''file'', ''mms'', ''https'', ''shttp'',
     ''snews'', ''prospero'', ''rtsp'', ''rtsps'', ''rtspu'', ''rsync'',
     ''svn'', ''svn+ssh'', ''sftp'', ''nfs'', ''git'', ''git+ssh'',
     ''ws'', ''wss'']"

definition uses_params :: "string list" where
  "uses_params = ['''', ''ftp'', ''hdl'', ''prospero'', ''http'', ''imap'',
     ''https'', ''shttp'', ''rtsp'', ''rtsps'', ''rtspu'', ''sip'',
     ''sips'', ''mms'', ''sftp'', ''tel'']"

definition scheme_chars :: string where
  "scheme_chars = ascii_lowercase @ ascii_uppercase @ ''0123456789'' @ ''+-.''"

text \<open>\<open>_WHATWG_C0_CONTROL_OR_SPACE\<close>: the code points 0 to 32.\<close>

definition c0_control_or_space :: string where
  "c0_control_or_space = map char_of [0 ..< (33::nat)]"

text \<open>\<open>_UNSAFE_URL_BYTES_TO_REMOVE\<close>: tab, carriage return, line feed.\<close>

definition unsafe_url_bytes_to_remove :: "string list" where
  "unsafe_url_bytes_to_remove = [[CHR 0x09], [CHR 0x0D], [CHR 0x0A]]"

definition remove_unsafe :: "string \<Rightarrow> string" where
  "remove_unsafe s = fold (\<lambda>b u. replace b [] u) unsafe_url_bytes_to_remove s"

record SplitResult =
  sr_scheme :: string
  sr_netloc :: string
  sr_path :: string
  sr_query :: string
  sr_fragment :: string

record ParseResult =
  pr_scheme :: string
  pr_netloc :: string
  pr_path :: string
  pr_params :: string
  pr_query :: string
  pr_fragment :: string

text \<open>\<open>_splitnetloc(url, 2)\<close>: the text from index 2 up to the first of \<open>/ ? #\<close>, and the
  rest.\<close>

definition splitnetloc :: "string \<Rightarrow> string \<times> string" where
  "splitnetloc url =
     (let body = drop 2 url;
          dom = takeWhile (\<lambda>c. c \<notin> set ''/?#'') body
      in (dom, drop (length dom) body))"

text \<open>\<open>netloc.partition('[')[2].partition(']')[0]\<close>.\<close>

definition bracketed_host :: "string \<Rightarrow> string" where
  "bracketed_host nl = before (CHR '']'') (after (CHR ''['') nl)"

definition urlsplit :: "host_check \<Rightarrow> string \<Rightarrow> string \<Rightarrow> error + SplitResult" where
  "urlsplit V url0 scheme0 =
     (let url1 = remove_unsafe (lstrip c0_control_or_space url0);
          scheme1 = remove_unsafe (strip c0_control_or_space scheme0);
          (scheme2, url2) =
            (case find_char (CHR '':'') url1 of
               None \<Rightarrow> (scheme1, url1)
             | Some i \<Rightarrow>
                 if 0 < i \<and> hd url1 \<in> set (ascii_lowercase @ ascii_uppercase)
                    \<and> list_all (\<lambda>c. c \<in> set scheme_chars) (take i url1)
                 then (lower (take i url1), drop (Suc i) url1)
                 else (scheme1, url1));
          (netloc2, url3) = (if take 2 url2 = ''//'' then splitnetloc url2 else ([], url2));
          lb = (CHR ''['' \<in> set netloc2);
          rb = (CHR '']'' \<in> set netloc2)
      in if take 2 url2 = ''//'' \<and> lb \<noteq> rb then Inl ValueError
         else if take 2 url2 = ''//'' \<and> lb \<and> rb \<and> \<not> V (bracketed_host netloc2)
         then Inl ValueError
         else
           let (url4, fragment4) =
                 (if CHR ''#'' \<in> set url3
                  then (before (CHR ''#'') url3, after (CHR ''#'') url3) else (url3, []));
               (url5, query5) =
                 (if CHR ''?'' \<in> set url4
                  then (before (CHR ''?'') url4, after (CHR ''?'') url4) else (url4, []))
           in Inr \<lparr>sr_scheme = scheme2, sr_netloc = netloc2, sr_path = url5,
                    sr_query = query5, sr_fragment = fragment4\<rparr>)"

text \<open>\<open>_splitparams\<close>: the parameters of the last path segment.\<close>

definition splitparams :: "string \<Rightarrow> string \<times> string" where
  "splitparams url =
     (case rfind_char (CHR ''/'') url of
        Some j \<Rightarrow>
          (case find_char (CHR '';'') (drop j url) of
             None \<Rightarrow> (url, [])
           | Some k \<Rightarrow> (take (j + k) url, drop (Suc (j + k)) url))
      | None \<Rightarrow>
          (case find_char (CHR '';'') url of
             None \<Rightarrow> (butlast url, url)
           | Some i \<Rightarrow> (take i url, drop (Suc i) url)))"

definition urlparse :: "host_check \<Rightarrow> string \<Rightarrow> string \<Rightarrow> error + ParseResult" where
  "urlparse V url scheme0 =
     (case urlsplit V url scheme0 of
        Inl e \<Rightarrow> Inl e
      | Inr r \<Rightarrow>
          let (url1, params1) =
                (if sr_scheme r \<in> set uses_params \<and> CHR '';'' \<in> set (sr_path r)
                 then splitparams (sr_path r) else (sr_path r, []))
          in Inr \<lparr>pr_scheme = sr_scheme r, pr_netloc = sr_netloc r, pr_path = url1,
                   pr_params = params1, pr_query = sr_query r,
                   pr_fragment = sr_fragment r\<rparr>)"

definition urlunsplit :: "string \<Rightarrow> string \<Rightarrow> string \<Rightarrow> string \<Rightarrow> string \<Rightarrow> string" where
  "urlunsplit scheme0 netloc0 url0 query0 fragment0 =
     (let url1 =
            (if netloc0 \<noteq> [] \<or> (scheme0 \<noteq> [] \<and> scheme0 \<in> set uses_netloc)
                \<or> take 2 url0 = ''//''
             then ''//'' @ netloc0
                  @ (if url0 \<noteq> [] \<and> take 1 url0 \<noteq> ''/'' then ''/'' @ url0 else url0)
             else url0);
          url2 = (if scheme0 \<noteq> [] then scheme0 @ '':'' @ url1 else url1);
          url3 = (if query0 \<noteq> [] then url2 @ ''?'' @ query0 else url2)
      in if fragment0 \<noteq> [] then url3 @ ''#'' @ fragment0 else url3)"

definition urlunparse ::
  "string \<Rightarrow> string \<Rightarrow> string \<Rightarrow> string \<Rightarrow> string \<Rightarrow> string \<Rightarrow> string" where
  "urlunparse scheme0 netloc0 url0 params0 query0 fragment0 =
     urlunsplit scheme0 netloc0
       (if params0 \<noteq> [] then url0 @ '';'' @ params0 else url0) query0 fragment0"

text \<open>The loop of \<open>urljoin\<close> over the path segments: \<open>..\<close> pops (and is ignored on an
  empty list), \<open>.\<close> is skipped, anything else is appended.\<close>

fun resolve_segments :: "string list \<Rightarrow> string list \<Rightarrow> string list" where
  "resolve_segments resolved [] = resolved"
| "resolve_segments resolved (seg # segs) =
     (if seg = ''..'' then resolve_segments (butlast resolved) segs
      else if seg = ''.'' then resolve_segments resolved segs
      else resolve_segments (resolved @ [seg]) segs)"

text \<open>\<open>segments[1:-1] = filter(None, segments[1:-1])\<close>.\<close>

fun filter_inner :: "string list \<Rightarrow> string list" where
  "filter_inner [] = []"
| "filter_inner [x] = [x]"
| "filter_inner (x # y # ys) = x # filter (\<lambda>s. s \<noteq> []) (butlast (y # ys)) @ [last (y # ys)]"

definition urljoin :: "host_check \<Rightarrow> string \<Rightarrow> string \<Rightarrow> error + string" where
  "urljoin V base url =
     (if base = [] then Inr url
      else if url = [] then Inr base
      else
        (case urlparse V base [] of
           Inl e \<Rightarrow> Inl e
         | Inr b \<Rightarrow>
             (case urlparse V url (pr_scheme b) of
                Inl e \<Rightarrow> Inl e
              | Inr u \<Rightarrow>
                  if pr_scheme u \<noteq> pr_scheme b \<or> pr_scheme u \<notin> set uses_relative then Inr url
                  else if pr_scheme u \<in> set uses_netloc \<and> pr_netloc u \<noteq> []
                  then Inr (urlunparse (pr_scheme u) (pr_netloc u) (pr_path u) (pr_params u)
                              (pr_query u) (pr_fragment u))
                  else
                    let netloc1 = (if pr_scheme u \<in> set uses_netloc then pr_netloc b else pr_netloc u)
                    in if pr_path u = [] \<and> pr_params u = []
                       then Inr (urlunparse (pr_scheme u) netloc1 (pr_path b) (pr_params b)
                                   (if pr_query u = [] then pr_query b else pr_query u) (pr_fragment u))
                       else
                         let base_parts0 = split (CHR ''/'') (pr_path b);
                             base_parts =
                               (if last base_parts0 \<noteq> [] then butlast base_parts0
                                else base_parts0);
                             segments =
                               (if take 1 (pr_path u) = ''/'' then split (CHR ''/'') (pr_path u)
                                else filter_inner (base_parts @ split (CHR ''/'') (pr_path u)));
                             resolved0 = resolve_segments [] segments;
                             resolved_path =
                               (if last segments \<in> {''.'', ''..''} then resolved0 @ [[]]
                                else resolved0);
                             joined = join ''/'' resolved_path
                         in Inr (urlunparse (pr_scheme u) netloc1
                                   (if joined = [] then ''/'' else joined)
                                   (pr_params u) (pr_query u) (pr_fragment u)))))"

section \<open>URL classifier\<close>

definition BASE_URL :: string where
  "BASE_URL = ''https://sites.google.com/view/spc-student-it-club''"

definition START_PAGE :: string where
  "START_PAGE = BASE_URL @ ''/home''"

definition OUTPUT_DIR :: string where
  "OUTPUT_DIR = ''spc-site''"

definition is_internal :: "string \<Rightarrow> bool" where
  "is_internal url = prefix BASE_URL url"

definition url_to_filename :: "host_check \<Rightarrow> string \<Rightarrow> error + string" where
  "url_to_filename V url =
     (case urlparse V url [] of
        Inl e \<Rightarrow> Inl e
      | Inr r \<Rightarrow>
          let path1 = replace ''/view/spc-student-it-club'' [] (pr_path r);
              path2 = replace ''/'' ''_'' (strip ''/'' path1);
              path3 = (if path2 = [] then ''home'' else path2)
          in Inr (path3 @ ''.html''))"

section \<open>Markup\<close>

text \<open>
  Markup is represented by its parse tree, the tree \<open>BeautifulSoup(html, "html.parser")\<close>
  builds and \<open>str(soup)\<close> writes back: parsing and serialising are not modelled, and one
  value of type \<open>html\<close> stands for the string and for the soup. A tag has a name, its
  attributes in order (a \<open>dict\<close>, so an association list) and its children; everything else
  (text, comments, declarations) is a \<open>NavigableString\<close>.
\<close>

datatype node = Tag string "(string \<times> string) list" "node list" | NavigableString string

type_synonym html = "node list"

text \<open>\<open>tag[key]\<close>.\<close>

fun get_attr :: "node \<Rightarrow> string \<Rightarrow> error + string" where
  "get_attr (Tag name attrs kids) key =
     (case map_of attrs key of None \<Rightarrow> Inl KeyError | Some v \<Rightarrow> Inr v)"
| "get_attr (NavigableString s) key = Inl TypeError"

text \<open>\<open>soup.find_all(name, attr=True)\<close>: the tags of that name that carry the attribute,
  in document order (a tag before its descendants).\<close>

fun find_all :: "string \<Rightarrow> string \<Rightarrow> node \<Rightarrow> node list"
  and find_all_list :: "string \<Rightarrow> string \<Rightarrow> node list \<Rightarrow> node list" where
  "find_all name attr (NavigableString s) = []"
| "find_all name attr (Tag n attrs kids) =
     (if n = name \<and> map_of attrs attr \<noteq> None then [Tag n attrs kids] else [])
     @ find_all_list name attr kids"
| "find_all_list name attr [] = []"
| "find_all_list name attr (x # xs) = find_all name attr x @ find_all_list name attr xs"

section \<open>Link extractor and link rewriter\<close>

text \<open>The expression of lines 50 to 52 and of line 63:
  \<open>urljoin(current_url, href).split("?")[0].split("#")[0]\<close>.\<close>

definition resolve :: "host_check \<Rightarrow> string \<Rightarrow> string \<Rightarrow> error + string" where
  "resolve V current_url href =
     (case urljoin V current_url href of
        Inl e \<Rightarrow> Inl e
      | Inr full \<Rightarrow> Inr (hd (split (CHR ''#'') (hd (split (CHR ''?'') full)))))"

text \<open>The loop of \<open>extract_internal_links\<close> over the anchors found; \<open>visited\<close> is the
  module's global set, read and never assigned.\<close>

fun extract_loop ::
  "host_check \<Rightarrow> string \<Rightarrow> string set \<Rightarrow> node list \<Rightarrow> string set \<Rightarrow> error + string set" where
  "extract_loop V current_url visited [] links = Inr links"
| "extract_loop V current_url visited (tag # tags) links =
     (case get_attr tag ''href'' of
        Inl e \<Rightarrow> Inl e
      | Inr href \<Rightarrow>
          (case resolve V current_url href of
             Inl e \<Rightarrow> Inl e
           | Inr full \<Rightarrow>
               extract_loop V current_url visited tags
                 (if is_internal full \<and> full \<notin> visited then insert full links else links)))"

definition extract_internal_links ::
  "host_check \<Rightarrow> html \<Rightarrow> string \<Rightarrow> string set \<Rightarrow> error + string set" where
  "extract_internal_links V html current_url visited =
     extract_loop V current_url visited (find_all_list ''a'' ''href'' html) {}"

text \<open>
  \<open>rewrite_internal_links\<close> assigns to \<open>tag["href"]\<close> of the tags \<open>find_all\<close> returns, in
  document order, inside the soup. \<open>rewrite_tag\<close> is the body of that loop for one tag (a
  tag \<open>find_all\<close> does not return is left as it is). An assignment to one tag leaves every
  other tag as it is, so the loop is the traversal of the tree in the same order; the
  first exception ends it.
\<close>

definition rewrite_tag ::
  "host_check \<Rightarrow> string \<Rightarrow> string \<Rightarrow> (string \<times> string) list
     \<Rightarrow> error + (string \<times> string) list" where
  "rewrite_tag V current_url name attrs =
     (case (if name = ''a'' then map_of attrs ''href'' else None) of
        None \<Rightarrow> Inr attrs
      | Some href \<Rightarrow>
          (case resolve V current_url href of
             Inl e \<Rightarrow> Inl e
           | Inr full \<Rightarrow>
               if is_internal full
               then (case url_to_filename V full of
                       Inl e \<Rightarrow> Inl e
                     | Inr f \<Rightarrow> Inr (AList.update ''href'' f attrs))
               else Inr attrs))"

fun rewrite_node :: "host_check \<Rightarrow> string \<Rightarrow> node \<Rightarrow> error + node"
  and rewrite_nodes :: "host_check \<Rightarrow> string \<Rightarrow> node list \<Rightarrow> error + node list" where
  "rewrite_node V current_url (NavigableString s) = Inr (NavigableString s)"
| "rewrite_node V current_url (Tag name attrs kids) =
     (case rewrite_tag V current_url name attrs of
        Inl e \<Rightarrow> Inl e
      | Inr attrs' \<Rightarrow>
          (case rewrite_nodes V current_url kids of
             Inl e \<Rightarrow> Inl e
           | Inr kids' \<Rightarrow> Inr (Tag name attrs' kids')))"
| "rewrite_nodes V current_url [] = Inr []"
| "rewrite_nodes V current_url (x # xs) =
     (case rewrite_node V current_url x of
        Inl e \<Rightarrow> Inl e
      | Inr x' \<Rightarrow>
          (case rewrite_nodes V current_url xs of
             Inl e \<Rightarrow> Inl e
           | Inr xs' \<Rightarrow> Inr (x' # xs')))"

definition rewrite_internal_links :: "host_check \<Rightarrow> html \<Rightarrow> string \<Rightarrow> error + html" where
  "rewrite_internal_links V html current_url = rewrite_nodes V current_url html"

section \<open>Page materializer\<close>

text \<open>The characters Python's \<open>\s\<close> matches below 256, and \<open>re.findall(r"\S+", v)\<close>,
  by which the parser splits the value of a \<open>rel\<close> attribute.\<close>

definition whitespace :: string where
  "whitespace = map char_of [9, 10, 11, 12, 13, 28, 29, 30, 31, 32, 133, 160 :: nat]"

fun nonwhitespace :: "string \<Rightarrow> string \<Rightarrow> string list" where
  "nonwhitespace cur [] = (if cur = [] then [] else [cur])"
| "nonwhitespace cur (c # cs) =
     (if c \<in> set whitespace then (if cur = [] then [] else [cur]) @ nonwhitespace [] cs
      else nonwhitespace (cur @ [c]) cs)"

text \<open>\<open>find_all("link", rel="stylesheet")\<close> matches a \<open>link\<close> tag one of whose \<open>rel\<close>
  values is \<open>stylesheet\<close>.\<close>

definition is_stylesheet_link :: "string \<Rightarrow> (string \<times> string) list \<Rightarrow> bool" where
  "is_stylesheet_link name attrs =
     (name = ''link'' \<and>
      (case map_of attrs ''rel'' of
         None \<Rightarrow> False
       | Some v \<Rightarrow> ''stylesheet'' \<in> set (nonwhitespace [] v)))"

text \<open>\<open>link.decompose()\<close> for every such tag: the tag goes, with all it contains.\<close>

fun decompose_links :: "node \<Rightarrow> node list"
  and decompose_links_list :: "node list \<Rightarrow> node list" where
  "decompose_links (NavigableString s) = [NavigableString s]"
| "decompose_links (Tag name attrs kids) =
     (if is_stylesheet_link name attrs then []
      else [Tag name attrs (decompose_links_list kids)])"
| "decompose_links_list [] = []"
| "decompose_links_list (x # xs) = decompose_links x @ decompose_links_list xs"

text \<open>\<open>soup.head\<close> is \<open>soup.find("head")\<close>: the first \<open>head\<close> tag in document order, or
  \<open>None\<close>. A tag is always true in a condition.\<close>

fun find_first :: "string \<Rightarrow> node list \<Rightarrow> node option" where
  "find_first name [] = None"
| "find_first name (NavigableString s # xs) = find_first name xs"
| "find_first name (Tag n attrs kids # xs) =
     (if n = name then Some (Tag n attrs kids)
      else (case find_first name kids of
              Some t \<Rightarrow> Some t
            | None \<Rightarrow> find_first name xs))"

text \<open>A change of the children of that first tag, inside the soup; \<open>None\<close> when there is no
  such tag.\<close>

fun modify_first :: "string \<Rightarrow> (node list \<Rightarrow> node list) \<Rightarrow> node list \<Rightarrow> node list option" where
  "modify_first name f [] = None"
| "modify_first name f (NavigableString s # xs) =
     map_option (\<lambda>r. NavigableString s # r) (modify_first name f xs)"
| "modify_first name f (Tag n attrs kids # xs) =
     (if n = name then Some (Tag n attrs (f kids) # xs)
      else (case modify_first name f kids of
              Some kids' \<Rightarrow> Some (Tag n attrs kids' # xs)
            | None \<Rightarrow> map_option (\<lambda>r. Tag n attrs kids # r) (modify_first name f xs)))"

text \<open>Lines 107 to 123 of \<open>crawl_page\<close>: the soup that is then serialised.\<close>

definition materialize :: "string \<Rightarrow> html \<Rightarrow> html" where
  "materialize styles html_content =
     (let soup = decompose_links_list html_content;
          style_tag = Tag ''style'' [] [NavigableString styles];
          soup1 =
            (if find_first ''head'' soup \<noteq> None
             then (case modify_first ''head'' (\<lambda>kids. kids @ [style_tag]) soup of
                     Some t \<Rightarrow> t | None \<Rightarrow> soup)
             else soup);
          base_tag = Tag ''base'' [(''href'', ''https://sites.google.com'')] []
      in if find_first ''head'' soup1 \<noteq> None
         then (case modify_first ''head'' (\<lambda>kids. base_tag # kids) soup1 of
                 Some t \<Rightarrow> t | None \<Rightarrow> soup1)
         else soup1)"

section \<open>Crawling one page\<close>

text \<open>
  The rendering engine is the environment: for a URL, whether \<open>page.goto\<close> raises (a
  timeout or a navigation error), the style text \<open>page.evaluate\<close> returns and the markup
  \<open>page.content()\<close> returns. What \<open>crawl_page\<close> does to the world is the list of its
  events, in order; the console output is left out.
\<close>

record browser =
  goto_raises :: "string \<Rightarrow> bool"
  page_styles :: "string \<Rightarrow> string"
  page_content :: "string \<Rightarrow> html"

datatype event =
    Goto string
  | WaitForTimeout nat
  | Evaluate
  | Content
  | ContextClose
  | FileWrite string html

text \<open>\<open>os.path.join(a, b)\<close> of \<open>posixpath\<close>.\<close>

definition path_join :: "string \<Rightarrow> string \<Rightarrow> string" where
  "path_join a b =
     (if take 1 b = ''/'' then b
      else if a = [] \<or> last a = CHR ''/'' then a @ b
      else a @ ''/'' @ b)"

definition crawl_page ::
  "host_check \<Rightarrow> browser \<Rightarrow> string \<Rightarrow> string set \<Rightarrow> event list \<times> (error + string set)" where
  "crawl_page V br url visited =
     (case url_to_filename V url of
        Inl e \<Rightarrow> ([], Inl e)
      | Inr filename \<Rightarrow>
          let fetched =
                [Goto url] @ (if goto_raises br url then [WaitForTimeout 5000] else [])
                @ [WaitForTimeout 2000, Evaluate, Content, ContextClose];
              styles = page_styles br url;
              html_content = page_content br url
          in (case extract_internal_links V html_content url visited of
                Inl e \<Rightarrow> (fetched, Inl e)
              | Inr new_links \<Rightarrow>
                  (case rewrite_internal_links V (materialize styles html_content) url of
                     Inl e \<Rightarrow> (fetched, Inl e)
                   | Inr final_html \<Rightarrow>
                       (fetched @ [FileWrite (path_join OUTPUT_DIR filename) final_html],
                        Inr new_links))))"

section \<open>Crawl orchestrator\<close>

text \<open>
  The state of \<open>main\<close> at its loop: the local \<open>queue\<close>, the global \<open>visited\<close>, the events so
  far, and the exception that has ended the run, if any.
\<close>

record crawl_state =
  queue :: "string set"
  visited :: "string set"
  events :: "event list"
  raised :: "error option"

definition initial :: crawl_state where
  "initial = \<lparr>queue = {START_PAGE}, visited = {}, events = [], raised = None\<rparr>"

text \<open>One iteration of the \<open>while\<close> loop, \<open>url\<close> being what \<open>queue.pop()\<close> returned.\<close>

definition loop_body :: "host_check \<Rightarrow> browser \<Rightarrow> string \<Rightarrow> crawl_state \<Rightarrow> crawl_state" where
  "loop_body V br url s =
     (let s1 = s\<lparr>queue := queue s - {url}\<rparr>
      in if url \<in> visited s1 then s1
         else
           let s2 = s1\<lparr>visited := insert url (visited s1)\<rparr>;
               (evs, r) = crawl_page V br url (visited s2);
               s3 = s2\<lparr>events := events s2 @ evs\<rparr>
           in (case r of
                 Inl e \<Rightarrow> s3\<lparr>raised := Some e\<rparr>
               | Inr new_links \<Rightarrow>
                   s3\<lparr>queue := queue s3 \<union> (new_links - visited s3)\<rparr>))"

text \<open>The states the loop can be in when it tests \<open>queue\<close>, whatever \<open>pop\<close> chooses.\<close>

inductive reachable :: "host_check \<Rightarrow> browser \<Rightarrow> crawl_state \<Rightarrow> bool"
  for V :: host_check and br :: browser where
  start: "reachable V br initial"
| iteration:
    "reachable V br s \<Longrightarrow> raised s = None \<Longrightarrow> url \<in> queue s
       \<Longrightarrow> reachable V br (loop_body V br url s)"

text \<open>
  The loop itself. \<open>pop\<close> is the choice \<open>queue.pop()\<close> makes, which may depend on
  everything that happened before; the fuel bounds the iterations, and the result is the
  number of iterations made together with the state at the exit, or \<open>None\<close> when the fuel
  is used up before the loop ends.
\<close>

fun crawl_loop ::
  "host_check \<Rightarrow> browser \<Rightarrow> (crawl_state \<Rightarrow> string) \<Rightarrow> nat \<Rightarrow> crawl_state
     \<Rightarrow> (nat \<times> crawl_state) option" where
  "crawl_loop V br pop fuel s =
     (if queue s = {} \<or> raised s \<noteq> None then Some (0, s)
      else (case fuel of
              0 \<Rightarrow> None
            | Suc n \<Rightarrow>
                map_option (\<lambda>(k, s'). (Suc k, s'))
                  (crawl_loop V br pop n (loop_body V br (pop s) s))))"

declare crawl_loop.simps [simp del]

section \<open>The specification's local filename\<close>

text \<open>
  The mapping as the specification words it, on the path of the URL: the site root's path
  segment is taken out, slashes at both ends are trimmed, every slash left becomes an
  underscore, an empty residual becomes \<open>home\<close>, and \<open>.html\<close> is appended.
\<close>

definition to_local_filename :: "string \<Rightarrow> string" where
  "to_local_filename p =
     (let residual = replace ''/view/spc-student-it-club'' [] p;
          trimmed =
            rev (dropWhile (\<lambda>c. c = CHR ''/'') (rev (dropWhile (\<lambda>c. c = CHR ''/'') residual)));
          flat = map (\<lambda>c. if c = CHR ''/'' then CHR ''_'' else c) trimmed
      in (if flat = [] then ''home'' else flat) @ ''.html'')"

section \<open>The specification's words for links and fetches\<close>

text \<open>The Canonical URL of a reference: resolved against the page it stands on, cut
  before its query string and its fragment.\<close>

definition canonical :: "host_check \<Rightarrow> string \<Rightarrow> string \<Rightarrow> error + string" where
  "canonical V base href =
     (case urljoin V base href of
        Inl e \<Rightarrow> Inl e
      | Inr u \<Rightarrow> Inr (takeWhile (\<lambda>c. c \<noteq> CHR ''?'' \<and> c \<noteq> CHR ''#'') u))"

fun canonical_all :: "host_check \<Rightarrow> string \<Rightarrow> string list \<Rightarrow> error + string list" where
  "canonical_all V base [] = Inr []"
| "canonical_all V base (h # hs) =
     (case canonical V base h of
        Inl e \<Rightarrow> Inl e
      | Inr u \<Rightarrow>
          (case canonical_all V base hs of
             Inl e \<Rightarrow> Inl e
           | Inr us \<Rightarrow> Inr (u # us)))"

text \<open>The reference attribute values of the anchors of a document, in document order.\<close>

fun hrefs :: "node \<Rightarrow> string list" and hrefs_list :: "node list \<Rightarrow> string list" where
  "hrefs (NavigableString s) = []"
| "hrefs (Tag n attrs kids) =
     (case (if n = ''a'' then map_of attrs ''href'' else None) of
        Some h \<Rightarrow> [h] | None \<Rightarrow> []) @ hrefs_list kids"
| "hrefs_list [] = []"
| "hrefs_list (x # xs) = hrefs x @ hrefs_list xs"

text \<open>A document with the reference attribute values of its anchors blanked: all of it
  but those values.\<close>

fun blank :: "node \<Rightarrow> node" and blank_list :: "node list \<Rightarrow> node list" where
  "blank (NavigableString s) = NavigableString s"
| "blank (Tag n attrs kids) =
     Tag n (if n = ''a'' \<and> map_of attrs ''href'' \<noteq> None then AList.update ''href'' [] attrs
            else attrs) (blank_list kids)"
| "blank_list [] = []"
| "blank_list (x # xs) = blank x # blank_list xs"

text \<open>What the rewriter makes of one anchor value \<open>h\<close>: the local filename of its
  Canonical URL when that is internal, and \<open>h\<close> itself otherwise.\<close>

definition rewritten :: "host_check \<Rightarrow> string \<Rightarrow> string \<Rightarrow> string \<Rightarrow> bool" where
  "rewritten V cur h h' =
     (case canonical V cur h of
        Inl e \<Rightarrow> False
      | Inr full \<Rightarrow>
          if is_internal full then url_to_filename V full = Inr h' \<and> h' \<noteq> full else h' = h)"

text \<open>The URLs fetched, in order: one for each \<open>page.goto\<close>.\<close>

fun fetched :: "event list \<Rightarrow> string list" where
  "fetched [] = []"
| "fetched (Goto u # es) = u # fetched es"
| "fetched (e # es) = fetched es"

section \<open>A small site\<close>

text \<open>Two pages: the start page, with a head, a stylesheet link, an internal anchor and
  an external one; and the page it links to, without a head, whose fetch times out.\<close>

definition about_url :: string where
  "about_url = BASE_URL @ ''/about''"

definition sample_home :: html where
  "sample_home =
     [Tag ''html'' []
        [Tag ''head'' [] [Tag ''link'' [(''rel'', ''stylesheet''), (''href'', ''x.css'')] []],
         Tag ''body'' []
           [Tag ''a'' [(''class'', ''nav''), (''href'', ''about?ref=1#top'')]
              [NavigableString ''About''],
            Tag ''a'' [(''href'', ''https://external.example/?q=1#top'')] []]]]"

definition sample_about :: html where
  "sample_about = [Tag ''a'' [(''href'', ''home'')] [NavigableString ''Home'']]"

definition sample_browser :: browser where
  "sample_browser =
     \<lparr>goto_raises = (\<lambda>u. u \<noteq> START_PAGE),
      page_styles = (\<lambda>u. ''p{}''),
      page_content = (\<lambda>u. if u = START_PAGE then sample_home else sample_about)\<rparr>"

text \<open>A page with an anchor whose host has an opening bracket only.\<close>

definition broken_page :: html where
  "broken_page = [Tag ''a'' [(''href'', ''//['')] []]"

definition broken_browser :: browser where
  "broken_browser =
     \<lparr>goto_raises = (\<lambda>u. True), page_styles = (\<lambda>u. []), page_content = (\<lambda>u. broken_page)\<rparr>"

(*DEFS-END*)

section \<open>Strings and URLs: basic facts\<close>

lemma replace_single_del: "replace [c] [] s = filter (\<lambda>x. x \<noteq> c) s"
proof (induction s)
  case Nil
  show ?case by (simp add: replace.simps)
next
  case (Cons a s)
  show ?case using Cons by (subst replace.simps) (auto simp: prefix_def)
qed

lemma replace_single: "replace [a] [b] s = map (\<lambda>x. if x = a then b else x) s"
proof (induction s)
  case Nil
  show ?case by (simp add: replace.simps)
next
  case (Cons c s)
  show ?case using Cons by (subst replace.simps) (auto simp: prefix_def)
qed

lemma remove_unsafe_filter:
  "remove_unsafe s = filter (\<lambda>x. x \<notin> {CHR 0x09, CHR 0x0D, CHR 0x0A}) s"
  by (induction s)
    (auto simp: remove_unsafe_def unsafe_url_bytes_to_remove_def replace_single_del)

lemma remove_unsafe_append: "remove_unsafe (a @ b) = remove_unsafe a @ remove_unsafe b"
  by (simp add: remove_unsafe_filter)

lemma remove_unsafe_BASE_URL: "remove_unsafe BASE_URL = BASE_URL"
  by (simp add: remove_unsafe_filter BASE_URL_def)

lemma h_not_c0: "CHR ''h'' \<notin> set c0_control_or_space"
  by code_simp

lemma lstrip_BASE_URL: "lstrip c0_control_or_space (BASE_URL @ r) = BASE_URL @ r"
  using h_not_c0 by (simp add: lstrip_def BASE_URL_def)

lemma find_colon_BASE_URL: "find_char (CHR '':'') (BASE_URL @ r) = Some 5"
  by (simp add: find_char_def BASE_URL_def)

lemma lower_https: "lower ''https'' = ''https''"
  by code_simp

lemma scheme_chars_https: "list_all (\<lambda>c. c \<in> set scheme_chars) ''https''"
  by code_simp

lemma h_alpha: "CHR ''h'' \<in> set (ascii_lowercase @ ascii_uppercase)"
  by code_simp

text \<open>An internal URL has the host \<open>sites.google.com\<close>, with no bracket in it: splitting
  it raises nothing.\<close>

lemma urlsplit_internal:
  "\<exists>p. urlsplit V (BASE_URL @ r) sch = Inr p \<and> sr_scheme p = ''https''"
proof -
  have u1: "remove_unsafe (lstrip c0_control_or_space (BASE_URL @ r))
      = BASE_URL @ remove_unsafe r"
    by (simp add: lstrip_BASE_URL remove_unsafe_append remove_unsafe_BASE_URL)
  have tk: "take 5 (BASE_URL @ remove_unsafe r) = ''https''"
    by (simp add: BASE_URL_def)
  have hd1: "hd (BASE_URL @ remove_unsafe r) = CHR ''h''"
    by (simp add: BASE_URL_def)
  have dr: "drop 6 (BASE_URL @ remove_unsafe r)
      = ''//sites.google.com/view/spc-student-it-club'' @ remove_unsafe r"
    by (simp add: BASE_URL_def)
  have nl: "splitnetloc (''//sites.google.com/view/spc-student-it-club'' @ remove_unsafe r)
      = (''sites.google.com'', ''/view/spc-student-it-club'' @ remove_unsafe r)"
    by (simp add: splitnetloc_def Let_def)
  show ?thesis
    unfolding urlsplit_def Let_def u1 find_colon_BASE_URL
    using tk hd1 dr nl scheme_chars_https h_alpha lower_https
    by (simp add: Let_def split: prod.splits)
qed

lemma url_to_filename_internal:
  assumes "is_internal url"
  shows "\<exists>f. url_to_filename V url = Inr f"
proof -
  from assms obtain r where r: "url = BASE_URL @ r"
    by (auto simp: is_internal_def prefix_def)
  obtain p where "urlsplit V (BASE_URL @ r) [] = Inr p"
    using urlsplit_internal by blast
  then show ?thesis
    unfolding r url_to_filename_def urlparse_def
    by (simp add: Let_def split: prod.splits)
qed

lemma urlsplit_raises_ValueError: "urlsplit V url sch = Inl e \<Longrightarrow> e = ValueError"
  by (auto simp: urlsplit_def Let_def split: prod.splits if_splits)

lemma urlparse_raises_ValueError: "urlparse V url sch = Inl e \<Longrightarrow> e = ValueError"
  by (auto simp: urlparse_def Let_def dest: urlsplit_raises_ValueError
      split: sum.splits prod.splits)

lemma strip_slash:
  "strip ''/'' s
     = rev (dropWhile (\<lambda>c. c = CHR ''/'') (rev (dropWhile (\<lambda>c. c = CHR ''/'') s)))"
  by (simp add: strip_def lstrip_def rstrip_def)

lemma bad_host_raises: "url_to_filename V ''//['' = Inl ValueError"
  by code_simp

lemma is_internal_START_PAGE: "is_internal START_PAGE"
  by code_simp

lemma url_to_filename_to_local:
  "url_to_filename V url =
     (case urlparse V url [] of
        Inl e \<Rightarrow> Inl e
      | Inr r \<Rightarrow> Inr (to_local_filename (pr_path r)))"
  by (simp add: url_to_filename_def to_local_filename_def Let_def strip_slash
      replace_single split: sum.splits)

lemma slash_in_internal: "is_internal u \<Longrightarrow> CHR ''/'' \<in> set u"
  by (auto simp: is_internal_def prefix_def BASE_URL_def)

lemma no_slash_to_local_filename: "CHR ''/'' \<notin> set (to_local_filename p)"
  by (auto simp: to_local_filename_def Let_def)

lemma url_to_filename_no_slash: "url_to_filename V u = Inr f \<Longrightarrow> CHR ''/'' \<notin> set f"
  using url_to_filename_to_local [of V u] no_slash_to_local_filename
  by (auto split: sum.splits)

section \<open>The local filename\<close>

text \<open>
  Claim C1, as amended. \<open>url_to_filename\<close> is a function of the URL alone. Where \<open>urlparse\<close>
  returns, its result is the specification's local filename of the path; where \<open>urlparse\<close>
  raises, it raises the same \<open>ValueError\<close>, so it is not defined for every string; on an
  internal URL it never raises.
\<close>

theorem url_to_filename_refines:
  "url_to_filename V url =
     (case urlparse V url [] of
        Inl e \<Rightarrow> Inl e
      | Inr r \<Rightarrow> Inr (to_local_filename (pr_path r)))
   \<and> (\<forall>e. url_to_filename V url = Inl e \<longrightarrow> e = ValueError)
   \<and> (is_internal url \<longrightarrow> (\<exists>f. url_to_filename V url = Inr f))"
proof (intro conjI allI impI)
  show "url_to_filename V url =
     (case urlparse V url [] of
        Inl e \<Rightarrow> Inl e
      | Inr r \<Rightarrow> Inr (to_local_filename (pr_path r)))"
    by (rule url_to_filename_to_local)
next
  fix e
  assume "url_to_filename V url = Inl e"
  then show "e = ValueError"
    by (auto simp: url_to_filename_def Let_def dest: urlparse_raises_ValueError
        split: sum.splits)
next
  assume "is_internal url"
  then show "\<exists>f. url_to_filename V url = Inr f"
    by (rule url_to_filename_internal)
qed

theorem url_to_filename_refines_witness:
  "is_internal START_PAGE \<and> (\<exists>f. url_to_filename (\<lambda>h. True) START_PAGE = Inr f)"
  using url_to_filename_refines [of "\<lambda>h. True" START_PAGE] is_internal_START_PAGE
  by blast

text \<open>The claim as stated fails: a string with an opening bracket in its host makes
  \<open>urlparse\<close> raise, whatever the validation of bracketed hosts answers.\<close>

theorem url_to_filename_not_total:
  "\<forall>V. \<not> (\<exists>f. url_to_filename V ''//['' = Inr f)"
  by (simp add: bad_host_raises)

text \<open>
  Claim C9. The mapping is not injective on internal URLs: the site root and the site root
  followed by \<open>/home\<close> are distinct, both internal, and both map to \<open>home.html\<close>, so their
  output files have the same path.
\<close>

theorem url_to_filename_collision:
  "BASE_URL \<noteq> START_PAGE \<and> is_internal BASE_URL \<and> is_internal START_PAGE
   \<and> url_to_filename V BASE_URL = Inr ''home.html''
   \<and> url_to_filename V START_PAGE = Inr ''home.html''
   \<and> path_join OUTPUT_DIR ''home.html'' = ''spc-site/home.html''"
  by code_simp

theorem url_to_filename_collision_witness:
  "url_to_filename (\<lambda>h. True) BASE_URL = url_to_filename (\<lambda>h. True) START_PAGE"
  using url_to_filename_collision [of "\<lambda>h. True"] by simp

section \<open>The crawl loop: invariants\<close>

lemma fetched_append: "fetched (a @ b) = fetched a @ fetched b"
  by (induction a rule: fetched.induct) auto

lemma fetched_crawl_page:
  "fetched (fst (crawl_page V br url vis))
     = (case url_to_filename V url of Inl e \<Rightarrow> [] | Inr f \<Rightarrow> [url])"
  by (auto simp: crawl_page_def Let_def fetched_append split: sum.splits)

lemma loop_body_visited:
  "visited (loop_body V br url s) = insert url (visited s)"
  by (auto simp: loop_body_def Let_def split: prod.splits sum.splits)

lemma loop_body_events:
  "events (loop_body V br url s)
     = events s @ (if url \<in> visited s then []
                   else fst (crawl_page V br url (insert url (visited s))))"
  by (auto simp: loop_body_def Let_def split: prod.splits sum.splits)

lemma loop_body_queue:
  "queue (loop_body V br url s) \<subseteq> (queue s - {url}) \<union> (UNIV - insert url (visited s))"
  by (auto simp: loop_body_def Let_def split: prod.splits sum.splits)

lemma reachable_disjoint: "reachable V br s \<Longrightarrow> queue s \<inter> visited s = {}"
proof (induction rule: reachable.induct)
  case start
  show ?case by (simp add: initial_def)
next
  case (iteration s url)
  then show ?case
    using loop_body_queue [of V br url s] by (auto simp: loop_body_visited)
qed

lemma reachable_fetched:
  "reachable V br s \<Longrightarrow> distinct (fetched (events s)) \<and> set (fetched (events s)) \<subseteq> visited s"
proof (induction rule: reachable.induct)
  case start
  show ?case by (simp add: initial_def)
next
  case (iteration s url)
  have "url \<notin> visited s"
    using reachable_disjoint [OF iteration.hyps(1)] iteration.hyps(3) by auto
  then show ?case
    using iteration.IH
    by (auto simp: loop_body_events loop_body_visited fetched_append fetched_crawl_page
        split: sum.splits)
qed

lemma sample_reachable:
  "reachable (\<lambda>h. True) sample_browser (loop_body (\<lambda>h. True) sample_browser START_PAGE initial)"
  by (rule reachable.iteration [OF reachable.start]) (simp_all add: initial_def)

text \<open>
  Claim C10. Whenever the loop tests its condition, the queue and the visited set have no
  URL in common.
\<close>

theorem frontier_visited_disjoint: "reachable V br s \<Longrightarrow> queue s \<inter> visited s = {}"
  by (rule reachable_disjoint)

theorem frontier_visited_disjoint_witness:
  "queue (loop_body (\<lambda>h. True) sample_browser START_PAGE initial)
     \<inter> visited (loop_body (\<lambda>h. True) sample_browser START_PAGE initial) = {}"
  using frontier_visited_disjoint [OF sample_reachable] .

text \<open>
  Claim C2. In every run, whatever the order of the pops and whoever links to whom, no URL
  is fetched twice, and a fetched URL is in the visited set; a popped URL is not yet
  visited, and \<open>crawl_page\<close> runs on it with the URL already added to the visited set.
\<close>

theorem fetched_at_most_once:
  "reachable V br s \<Longrightarrow>
     distinct (fetched (events s)) \<and> set (fetched (events s)) \<subseteq> visited s
     \<and> (\<forall>url \<in> queue s. url \<notin> visited s
           \<and> events (loop_body V br url s)
               = events s @ fst (crawl_page V br url (insert url (visited s))))"
  using reachable_fetched [of V br s] reachable_disjoint [of V br s]
  by (auto simp: loop_body_events)

theorem fetched_at_most_once_witness:
  "distinct (fetched (events (loop_body (\<lambda>h. True) sample_browser START_PAGE initial)))"
  using fetched_at_most_once [OF sample_reachable] by blast

section \<open>The link extractor\<close>

lemma split_nonempty: "split c s \<noteq> []"
  by (induction s) (auto split: list.splits)

lemma split_hd: "hd (split c s) = takeWhile (\<lambda>x. x \<noteq> c) s"
proof (induction s)
  case Nil
  show ?case by simp
next
  case (Cons a s)
  then show ?case using split_nonempty [of c s] by (auto split: list.splits)
qed

lemma takeWhile_twice: "takeWhile P (takeWhile Q xs) = takeWhile (\<lambda>x. Q x \<and> P x) xs"
  by (induction xs) auto

lemma resolve_canonical: "resolve V cur h = canonical V cur h"
  by (auto simp: resolve_def canonical_def split_hd takeWhile_twice split: sum.splits)

lemma find_all_hrefs:
  "map (\<lambda>t. get_attr t ''href'') (find_all ''a'' ''href'' x) = map Inr (hrefs x)"
  and find_all_list_hrefs:
  "map (\<lambda>t. get_attr t ''href'') (find_all_list ''a'' ''href'' xs) = map Inr (hrefs_list xs)"
  by (induction x and xs rule: hrefs_hrefs_list.induct) (auto split: option.splits)

lemma extract_loop_spec:
  "map (\<lambda>t. get_attr t ''href'') tags = map Inr hs \<Longrightarrow>
   extract_loop V cur vis tags acc =
     (case canonical_all V cur hs of
        Inl e \<Rightarrow> Inl e
      | Inr fulls \<Rightarrow> Inr (acc \<union> {f \<in> set fulls. is_internal f \<and> f \<notin> vis}))"
proof (induction tags arbitrary: hs acc)
  case Nil
  then show ?case by simp
next
  case (Cons t tags)
  then obtain h hs' where hs: "hs = h # hs'" "get_attr t ''href'' = Inr h"
    "map (\<lambda>t. get_attr t ''href'') tags = map Inr hs'"
    by (cases hs) auto
  show ?case
    using Cons.IH [OF hs(3)] hs(1,2)
    by (auto simp: resolve_canonical split: sum.splits)
qed

lemma extract_spec:
  "extract_internal_links V html cur vis =
     (case canonical_all V cur (hrefs_list html) of
        Inl e \<Rightarrow> Inl e
      | Inr fulls \<Rightarrow> Inr {f \<in> set fulls. is_internal f \<and> f \<notin> vis})"
  unfolding extract_internal_links_def
  by (subst extract_loop_spec [OF find_all_list_hrefs]) (auto split: sum.splits)

lemma sample_home_canonical:
  "canonical_all (\<lambda>h. True) START_PAGE (hrefs_list sample_home)
     = Inr [about_url, ''https://external.example/'']"
  by code_simp

text \<open>
  Claim C6. Where no reference makes \<open>urljoin\<close> raise, \<open>extract_internal_links\<close> returns
  exactly the Canonical URLs of the anchors of the markup that are internal and not in the
  visited set it is given; where one does, it raises. It returns links only: after a whole
  iteration of the loop the visited set has gained the popped URL and nothing else.
\<close>

theorem extract_internal_links_spec:
  "extract_internal_links V html cur vis =
     (case canonical_all V cur (hrefs_list html) of
        Inl e \<Rightarrow> Inl e
      | Inr fulls \<Rightarrow> Inr {f \<in> set fulls. is_internal f \<and> f \<notin> vis})
   \<and> visited (loop_body V br url s) = insert url (visited s)"
  by (simp add: extract_spec loop_body_visited)

theorem extract_internal_links_spec_witness:
  "extract_internal_links (\<lambda>h. True) sample_home START_PAGE {START_PAGE}
     = Inr {f \<in> set [about_url, ''https://external.example/''].
              is_internal f \<and> f \<notin> {START_PAGE}}"
  using extract_internal_links_spec [of "\<lambda>h. True" sample_home START_PAGE "{START_PAGE}"]
    sample_home_canonical
  by simp

end
